theory Spec2Isabelle
  imports Main
begin

section \<open>Data model\<close>

text \<open>
  The local records read from the database (\<^verbatim>\<open>dto.FileRead\<close>, \<^verbatim>\<open>dto.DialogRead\<close>) and the
  payloads sent upstream (\<^verbatim>\<open>models.FileCreate\<close>, \<^verbatim>\<open>models.DialogCreate\<close>), with the fields
  \<^verbatim>\<open>api/__init__.py\<close> reads and writes. The declarations of these classes are not among the
  sources; the grouping identifier \<^verbatim>\<open>series_id\<close> is optional text (the spec's "non-empty
  grouping identifier"), times are integers, identifiers are text.
\<close>

record dialog_read =
  content :: string
  begin_at :: int
  end_at :: int

record file_read =
  filename :: string
  sha1 :: string
  series_id :: "string option"
  path :: string
  series_name :: string
  dialogs :: "dialog_read list"

record file_create =
  fc_filename :: string
  fc_sha1 :: string
  fc_series_id :: string
  fc_remark :: string
  fc_user_id :: string

record dialog_create =
  dc_file_id :: string
  dc_content :: string
  dc_begin :: int
  dc_end :: int
  dc_user_id :: string

text \<open>
  The entities the remote service answers with (\<^verbatim>\<open>models.FileRead\<close>, \<^verbatim>\<open>models.DialogRead\<close>).
  Of the file entity the code reads only \<^verbatim>\<open>id\<close>.
\<close>

record remote_file =
  rf_id :: string
  rf_sha1 :: string

record remote_dialog =
  rd_id :: string
  rd_content :: string

subsection \<open>Requests, responses, exceptions\<close>

text \<open>
  The three calls the uploader makes: \<^verbatim>\<open>GET /api/files/sha1/{sha1}\<close>, \<^verbatim>\<open>POST /api/files\<close>
  and \<^verbatim>\<open>POST /api/dialogs/bulk\<close> (with its \<^verbatim>\<open>{"bulk": [...]}\<close> payload).
\<close>

datatype request =
    GET_file_sha1 string
  | POST_files file_create
  | POST_dialogs_bulk "dialog_create list"

text \<open>
  A response carries a status code and a body. The body either is not JSON at all (an HTML
  error page of a proxy, an empty body), or decodes to JSON: an object that validates as a
  file entity; an array of objects that validate as dialog entities; a value that iterates
  over nothing (the empty object, the empty string); a value that cannot be iterated (null, a
  number, a boolean); or any other value (an error detail, say).
\<close>

datatype json =
    JFile remote_file
  | JDialogs "remote_dialog list"
  | JEmpty
  | JScalar string
  | JOther string

datatype body = NotJson string | Json json

record response =
  status_code :: nat
  body :: body

text \<open>
  The exceptions (all subclasses of Python's \<^verbatim>\<open>Exception\<close>) the code can meet:
  \<^verbatim>\<open>httpx.HTTPStatusError\<close> carries the response; a failed \<^verbatim>\<open>assert\<close>; \<^verbatim>\<open>response.json()\<close> on a
  body that is not JSON; \<^verbatim>\<open>parse_obj\<close> on JSON of the wrong shape; \<^verbatim>\<open>map\<close> over a value that
  cannot be iterated; \<^verbatim>\<open>range\<close> with step 0; a transport failure of the HTTP client
  (connection refused, timeout).
\<close>

datatype exn =
    HTTPStatusError response
  | AssertionError
  | JSONDecodeError
  | ValidationError
  | TypeError
  | ValueError
  | TransportError string

fun is_HTTPStatusError :: "exn \<Rightarrow> bool" where
  "is_HTTPStatusError (HTTPStatusError _) = True"
| "is_HTTPStatusError _ = False"

text \<open>The calls to \<^verbatim>\<open>logger\<close>, in the order they are made, with the values they format.\<close>

datatype log_entry =
    Debug_file_existed string
  | Debug_file_synced string string
  | Debug_dialogs_synced string nat nat nat
  | Error_server_respond nat json
  | Exception_occurred exn







subsection \<open>The world the uploader runs in\<close>

text \<open>
  The remote service is a state machine outside the program: the HTTP client maps a request
  and the service's state to a reply (a response, or a transport failure with its message)
  and the service's next state. The world also keeps the trace of requests sent with their
  replies, and the log.
\<close>

type_synonym reply = "string + response"

type_synonym 'srv client = "request \<Rightarrow> 'srv \<Rightarrow> reply \<times> 'srv"

record 'srv world =
  remote :: 'srv
  sent :: "(request \<times> reply) list"
  log :: "log_entry list"

text \<open>\<^verbatim>\<open>self\<close>: the HTTP client, the authenticated user's id and the default slice.\<close>

record 'srv upload_files =
  client :: "'srv client"
  auth_id :: string
  upload_slice :: int

definition logger :: "log_entry \<Rightarrow> 'srv world \<Rightarrow> 'srv world" where
  "logger entry w = w\<lparr>log := log w @ [entry]\<rparr>"

text \<open>\<^verbatim>\<open>await self.client.get(...)\<close> / \<^verbatim>\<open>await self.client.post(...)\<close>.\<close>

definition send :: "'srv upload_files \<Rightarrow> request \<Rightarrow> 'srv world \<Rightarrow> (exn + response) \<times> 'srv world" where
  "send self rq w =
     (case client self rq (remote w) of
        (rp, srv') \<Rightarrow>
          (case rp of Inl msg \<Rightarrow> Inl (TransportError msg) | Inr resp \<Rightarrow> Inr resp,
           w\<lparr>remote := srv', sent := sent w @ [(rq, rp)]\<rparr>))"

text \<open>
  \<^verbatim>\<open>response.raise_for_status()\<close> of httpx: \<^verbatim>\<open>HTTPStatusError\<close> unless the status is a success
  (2xx).
\<close>

definition is_success :: "response \<Rightarrow> bool" where
  "is_success r = (200 \<le> status_code r \<and> status_code r < 300)"

definition raise_for_status :: "response \<Rightarrow> exn + unit" where
  "raise_for_status r = (if is_success r then Inr () else Inl (HTTPStatusError r))"

text \<open>\<^verbatim>\<open>response.json()\<close>: fails on a body that is not JSON.\<close>

definition response_json :: "response \<Rightarrow> exn + json" where
  "response_json r = (case body r of NotJson _ \<Rightarrow> Inl JSONDecodeError | Json j \<Rightarrow> Inr j)"

text \<open>\<^verbatim>\<open>models.FileRead.parse_obj(...)\<close>: a validation error on anything but a file entity.\<close>

definition parse_file :: "json \<Rightarrow> exn + remote_file" where
  "parse_file j = (case j of JFile f \<Rightarrow> Inr f | _ \<Rightarrow> Inl ValidationError)"

text \<open>
  \<^verbatim>\<open>map(models.DialogRead.parse_obj, response.json())\<close>, consumed by \<^verbatim>\<open>extend\<close> (line 78): the
  value is iterated and each element parsed. An array of dialog entities gives them; a value
  that iterates over nothing gives no entity and raises nothing; a value that cannot be
  iterated makes \<^verbatim>\<open>map\<close> raise \<^verbatim>\<open>TypeError\<close>; the elements of any other value (the keys of an
  object, the characters of a string, the other members of an array) fail validation.
\<close>

definition parse_dialogs :: "json \<Rightarrow> exn + remote_dialog list" where
  "parse_dialogs j =
     (case j of
        JDialogs ds \<Rightarrow> Inr ds
      | JEmpty \<Rightarrow> Inr []
      | JScalar _ \<Rightarrow> Inl TypeError
      | JFile _ \<Rightarrow> Inl ValidationError
      | JOther _ \<Rightarrow> Inl ValidationError)"

section \<open>The remote sync protocol\<close>

text \<open>
  \<^verbatim>\<open>get_file\<close> (lines 28-36): the request is sent outside the \<^verbatim>\<open>try\<close>; the \<^verbatim>\<open>try\<close> holds
  \<^verbatim>\<open>raise_for_status\<close> only, and its handler for \<^verbatim>\<open>HTTPStatusError\<close> returns \<^verbatim>\<open>None\<close>; the
  \<^verbatim>\<open>else\<close> branch logs and parses the body.
\<close>

definition get_file ::
  "'srv upload_files \<Rightarrow> string \<Rightarrow> 'srv world \<Rightarrow> (exn + remote_file option) \<times> 'srv world" where
  "get_file self sha w =
     (case send self (GET_file_sha1 sha) w of
        (Inl e, w1) \<Rightarrow> (Inl e, w1)
      | (Inr response, w1) \<Rightarrow>
          (case raise_for_status response of
             Inl e \<Rightarrow> (if is_HTTPStatusError e then (Inr None, w1) else (Inl e, w1))
           | Inr _ \<Rightarrow>
               (let w2 = logger (Debug_file_existed sha) w1 in
                (case response_json response of
                   Inl e \<Rightarrow> (Inl e, w2)
                 | Inr j \<Rightarrow>
                     (case parse_file j of
                        Inl e \<Rightarrow> (Inl e, w2)
                      | Inr f \<Rightarrow> (Inr (Some f), w2))))))"

text \<open>
  \<^verbatim>\<open>assert file.series_id\<close>: \<^verbatim>\<open>None\<close> and the empty string are falsy.
\<close>

definition series_id_truthy :: "file_read \<Rightarrow> bool" where
  "series_id_truthy file = (case series_id file of None \<Rightarrow> False | Some s \<Rightarrow> s \<noteq> [])"

text \<open>
  \<^verbatim>\<open>upload_file\<close> (lines 38-50): the assertion, the \<^verbatim>\<open>FileCreate\<close> payload, the POST,
  \<^verbatim>\<open>raise_for_status\<close> (not caught here), the debug line, the parsed entity.
\<close>

definition upload_file ::
  "'srv upload_files \<Rightarrow> file_read \<Rightarrow> 'srv world \<Rightarrow> (exn + remote_file) \<times> 'srv world" where
  "upload_file self file w =
     (case (if series_id_truthy file then series_id file else None) of
        None \<Rightarrow> (Inl AssertionError, w)
      | Some sid \<Rightarrow>
        (let model = \<lparr>fc_filename = filename file, fc_sha1 = sha1 file,
                       fc_series_id = sid, fc_remark = path file,
                       fc_user_id = auth_id self\<rparr> in
         (case send self (POST_files model) w of
            (Inl e, w1) \<Rightarrow> (Inl e, w1)
          | (Inr response, w1) \<Rightarrow>
              (case raise_for_status response of
                 Inl e \<Rightarrow> (Inl e, w1)
               | Inr _ \<Rightarrow>
                   (let w2 = logger (Debug_file_synced (filename file) (sha1 file)) w1 in
                    (case response_json response of
                       Inl e \<Rightarrow> (Inl e, w2)
                     | Inr j \<Rightarrow>
                         (case parse_file j of
                            Inl e \<Rightarrow> (Inl e, w2)
                          | Inr f \<Rightarrow> (Inr f, w2))))))))"

text \<open>\<^verbatim>\<open>slice or self.upload_slice\<close>: \<^verbatim>\<open>None\<close> and \<^verbatim>\<open>0\<close> are falsy.\<close>

definition slice_or :: "int option \<Rightarrow> int \<Rightarrow> int" where
  "slice_or slice dflt = (case slice of None \<Rightarrow> dflt | Some s \<Rightarrow> if s = 0 then dflt else s)"

text \<open>
  \<^verbatim>\<open>range(0, n, step)\<close>: \<^verbatim>\<open>ValueError\<close> for step 0, empty for a negative step (as \<open>0 \<le> n\<close>),
  and \<open>0, step, 2 * step, ...\<close> below \<open>n\<close> otherwise.
\<close>

definition py_range0 :: "nat \<Rightarrow> int \<Rightarrow> exn + nat list" where
  "py_range0 n step =
     (if step = 0 then Inl ValueError
      else if step < 0 then Inr []
      else Inr (map (\<lambda>k. k * nat step) [0..<(n + nat step - 1) div nat step]))"

text \<open>\<^verbatim>\<open>xs[b : e]\<close> for indices \<open>0 \<le> b\<close>, \<open>0 \<le> e\<close>.\<close>

definition py_slice :: "'a list \<Rightarrow> nat \<Rightarrow> nat \<Rightarrow> 'a list" where
  "py_slice xs b e = drop b (take e xs)"

text \<open>
  The loop of \<^verbatim>\<open>upload_dialogs\<close> (lines 67-78) over the offsets still to come, with the
  accumulator \<^verbatim>\<open>responses\<close>: POST the slice, \<^verbatim>\<open>raise_for_status\<close>, the debug line, extend
  \<^verbatim>\<open>responses\<close> with the parsed entities. Any exception leaves the loop at once.
\<close>

fun upload_chunks ::
  "'srv upload_files \<Rightarrow> string \<Rightarrow> dialog_create list \<Rightarrow> nat \<Rightarrow> nat list \<Rightarrow> remote_dialog list \<Rightarrow>
   'srv world \<Rightarrow> (exn + remote_dialog list) \<times> 'srv world" where
  "upload_chunks self file_id bulk_data slice [] responses w = (Inr responses, w)"
| "upload_chunks self file_id bulk_data slice (begin # rest) responses w =
     (case send self (POST_dialogs_bulk (py_slice bulk_data begin (begin + slice))) w of
        (Inl e, w1) \<Rightarrow> (Inl e, w1)
      | (Inr response, w1) \<Rightarrow>
          (case raise_for_status response of
             Inl e \<Rightarrow> (Inl e, w1)
           | Inr _ \<Rightarrow>
               (let w2 = logger (Debug_dialogs_synced file_id begin (begin + slice)
                                   (length bulk_data)) w1 in
                (case response_json response of
                   Inl e \<Rightarrow> (Inl e, w2)
                 | Inr j \<Rightarrow>
                     (case parse_dialogs j of
                        Inl e \<Rightarrow> (Inl e, w2)
                      | Inr ds \<Rightarrow>
                          upload_chunks self file_id bulk_data slice rest (responses @ ds) w2)))))"

text \<open>\<^verbatim>\<open>upload_dialogs\<close> (lines 52-80).\<close>

definition bulk_of :: "'srv upload_files \<Rightarrow> string \<Rightarrow> dialog_read list \<Rightarrow> dialog_create list" where
  "bulk_of self file_id ds =
     map (\<lambda>dialog. \<lparr>dc_file_id = file_id, dc_content = content dialog,
                     dc_begin = begin_at dialog, dc_end = end_at dialog,
                     dc_user_id = auth_id self\<rparr>) ds"

definition upload_dialogs ::
  "'srv upload_files \<Rightarrow> string \<Rightarrow> dialog_read list \<Rightarrow> int option \<Rightarrow> 'srv world \<Rightarrow>
   (exn + remote_dialog list) \<times> 'srv world" where
  "upload_dialogs self file_id ds slice w =
     (let bulk_data = bulk_of self file_id ds;
          slice' = slice_or slice (upload_slice self)
      in (case py_range0 (length bulk_data) slice' of
            Inl e \<Rightarrow> (Inl e, w)
          | Inr offsets \<Rightarrow> upload_chunks self file_id bulk_data (nat slice') offsets [] w))"

section \<open>The upload unit\<close>

text \<open>
  The body of the inner \<^verbatim>\<open>try\<close> of \<^verbatim>\<open>upload_subtitles\<close> (lines 87-91): create the file, then
  its dialogs with the default slice, and return the dialog entities.
\<close>

definition create_sequence ::
  "'srv upload_files \<Rightarrow> file_read \<Rightarrow> 'srv world \<Rightarrow> (exn + remote_dialog list) \<times> 'srv world" where
  "create_sequence self file w =
     (case upload_file self file w of
        (Inl e, w1) \<Rightarrow> (Inl e, w1)
      | (Inr file_response, w1) \<Rightarrow>
          upload_dialogs self (rf_id file_response) (dialogs file) None w1)"

text \<open>
  The body of the outer \<^verbatim>\<open>try\<close> (lines 84-96). A file entity is an object and so truthy:
  \<^verbatim>\<open>if await self.get_file(...)\<close> holds exactly when the lookup returned one, and the unit
  returns \<^verbatim>\<open>None\<close>. The handler of the inner \<^verbatim>\<open>try\<close> catches \<^verbatim>\<open>HTTPStatusError\<close> only; it
  formats the status code and \<^verbatim>\<open>response.json()\<close> into the error line (the decoding may
  itself raise), and the function then ends without a \<^verbatim>\<open>return\<close>: \<^verbatim>\<open>None\<close>.
\<close>

definition upload_unit ::
  "'srv upload_files \<Rightarrow> file_read \<Rightarrow> 'srv world \<Rightarrow>
   (exn + remote_dialog list option) \<times> 'srv world" where
  "upload_unit self file w =
     (case get_file self (sha1 file) w of
        (Inl e, w1) \<Rightarrow> (Inl e, w1)
      | (Inr (Some existing), w1) \<Rightarrow> (Inr None, w1)
      | (Inr None, w1) \<Rightarrow>
          (case create_sequence self file w1 of
             (Inr dialog_response, w2) \<Rightarrow> (Inr (Some dialog_response), w2)
           | (Inl e, w2) \<Rightarrow>
               (case e of
                  HTTPStatusError response \<Rightarrow>
                    (case response_json response of
                       Inl e' \<Rightarrow> (Inl e', w2)
                     | Inr data \<Rightarrow>
                         (Inr None, logger (Error_server_respond (status_code response) data) w2))
                | _ \<Rightarrow> (Inl e, w2))))"

text \<open>
  \<^verbatim>\<open>upload_subtitles\<close> (lines 82-99): the outer handler logs every \<^verbatim>\<open>Exception\<close> with
  \<^verbatim>\<open>logger.exception\<close> and raises it again.
\<close>

definition upload_subtitles ::
  "'srv upload_files \<Rightarrow> file_read \<Rightarrow> 'srv world \<Rightarrow>
   (exn + remote_dialog list option) \<times> 'srv world" where
  "upload_subtitles self file w =
     (case upload_unit self file w of
        (Inl e, w1) \<Rightarrow> (Inl e, logger (Exception_occurred e) w1)
      | (Inr r, w1) \<Rightarrow> (Inr r, w1))"

section \<open>Chunks\<close>

text \<open>
  The partition the specification describes: a list cut into contiguous chunks of \<open>n\<close>
  elements, the chunk number \<open>k\<close> starting at offset \<open>k * n\<close>, the last one possibly
  shorter; there are \<open>\<lceil>length xs / n\<rceil>\<close> of them.
\<close>

definition slices :: "nat \<Rightarrow> 'a list \<Rightarrow> 'a list list" where
  "slices n xs = map (\<lambda>k. take n (drop (k * n) xs)) [0..<(length xs + n - 1) div n]"

text \<open>The entities a successful bulk response carries (none when it does not parse).\<close>

definition entities_of :: "response \<Rightarrow> remote_dialog list" where
  "entities_of r =
     (case response_json r of
        Inl _ \<Rightarrow> []
      | Inr j \<Rightarrow> (case parse_dialogs j of Inl _ \<Rightarrow> [] | Inr ds \<Rightarrow> ds))"

text \<open>
  The exception the loop of \<^verbatim>\<open>upload_dialogs\<close> ends with on a reply, if any: the transport
  failure, the status error of \<^verbatim>\<open>raise_for_status\<close>, or the failure to decode or parse the
  body.
\<close>

definition chunk_failure :: "reply \<Rightarrow> exn option" where
  "chunk_failure rp =
     (case rp of
        Inl msg \<Rightarrow> Some (TransportError msg)
      | Inr r \<Rightarrow>
          if \<not> is_success r then Some (HTTPStatusError r)
          else (case response_json r of
                  Inl e \<Rightarrow> Some e
                | Inr j \<Rightarrow> (case parse_dialogs j of Inl e \<Rightarrow> Some e | Inr _ \<Rightarrow> None)))"

text \<open>The request the loop sends at offset \<open>b\<close>: the slice \<^verbatim>\<open>bulk_data[b : b + n]\<close>.\<close>

definition bulk_call :: "dialog_create list \<Rightarrow> nat \<Rightarrow> nat \<Rightarrow> request" where
  "bulk_call bulk n b = POST_dialogs_bulk (py_slice bulk b (b + n))"

section \<open>A scripted remote service\<close>

text \<open>
  For concrete runs: a service that answers the requests it receives from a fixed script of
  replies, in order, whatever the request; once the script is used up the connection fails.
\<close>

definition scripted :: "reply list client" where
  "scripted rq script =
     (case script of [] \<Rightarrow> (Inl ''connection closed'', []) | rp # rest \<Rightarrow> (rp, rest))"

definition scripted_self :: "int \<Rightarrow> reply list upload_files" where
  "scripted_self n = \<lparr>client = scripted, auth_id = ''u1'', upload_slice = n\<rparr>"

definition world0 :: "reply list \<Rightarrow> reply list world" where
  "world0 script = \<lparr>remote = script, sent = [], log = []\<rparr>"

definition ok_file :: "string \<Rightarrow> string \<Rightarrow> reply" where
  "ok_file i h = Inr \<lparr>status_code = 200, body = Json (JFile \<lparr>rf_id = i, rf_sha1 = h\<rparr>)\<rparr>"

definition ok_dialogs :: "string list \<Rightarrow> reply" where
  "ok_dialogs cs =
     Inr \<lparr>status_code = 200,
          body = Json (JDialogs (map (\<lambda>c. \<lparr>rd_id = c, rd_content = c\<rparr>) cs))\<rparr>"

definition status_reply :: "nat \<Rightarrow> body \<Rightarrow> reply" where
  "status_reply code b = Inr \<lparr>status_code = code, body = b\<rparr>"

definition dialog_of :: "string \<Rightarrow> dialog_read" where
  "dialog_of c = \<lparr>content = c, begin_at = 0, end_at = 1\<rparr>"

definition file_of :: "string \<Rightarrow> string option \<Rightarrow> string list \<Rightarrow> file_read" where
  "file_of h sid cs =
     \<lparr>filename = ''ep01.ass'', sha1 = h, series_id = sid, path = ''/subs/ep01.ass'',
      series_name = ''series'', dialogs = map dialog_of cs\<rparr>"

section \<open>The orchestrator\<close>

text \<open>
  Modelled from the spec: \<^verbatim>\<open>SagasuSubs.utils.AdvanceSemaphore\<close> is not among the sources. By
  the spec's contract of the capacity limiter, \<^verbatim>\<open>acquire()\<close> suspends the caller until fewer
  than N units are admitted and returns with the outstanding-work counter incremented;
  \<^verbatim>\<open>release()\<close> decrements the counter; \<^verbatim>\<open>wait_all_finish()\<close> suspends the caller until the
  counter is zero. The limiter is its counter.
\<close>

definition sem_may_acquire :: "nat \<Rightarrow> nat \<Rightarrow> bool" where
  "sem_may_acquire n c = (c < n)"

definition sem_acquire :: "nat \<Rightarrow> nat" where
  "sem_acquire c = c + 1"

definition sem_release :: "nat \<Rightarrow> nat" where
  "sem_release c = c - 1"

definition sem_all_finished :: "nat \<Rightarrow> bool" where
  "sem_all_finished c = (c = 0)"

text \<open>
  \<^verbatim>\<open>run\<close> (lines 101-118) on asyncio's single thread. A task created by \<^verbatim>\<open>create_task\<close> is
  running until its coroutine ends (with a result or an exception); then it is finished and
  its done-callback is scheduled; the callback, once run, calls \<^verbatim>\<open>sem.release()\<close>. Tasks are
  numbered in launch order. The loop is iterating over the records, then waiting in
  \<^verbatim>\<open>wait_all_finish\<close>, then past it (the client closed).
\<close>

datatype task_state = Running | Finished | Released

datatype phase = Iterating | Draining | Closed

record orchestrator =
  pending :: "file_read list"
  tasks :: "task_state list"
  counter :: nat
  acquires :: nat
  releases :: "nat list"
  phase :: phase

text \<open>
  What can happen next. \<^verbatim>\<open>Launch\<close>: the loop takes the next record, \<^verbatim>\<open>acquire()\<close> returns,
  and the task is created with its callback attached (lines 113-115 have no suspension point
  after \<^verbatim>\<open>acquire\<close>). \<^verbatim>\<open>Task_done i r\<close>: the coroutine of task \<open>i\<close> ends with outcome \<open>r\<close>,
  the value or the exception of \<^verbatim>\<open>upload_subtitles\<close>. \<^verbatim>\<open>Done_callback i\<close>: the event loop runs
  the callback of task \<open>i\<close>. \<^verbatim>\<open>Source_exhausted\<close>: the \<^verbatim>\<open>for\<close> loop ends and line 117 starts
  waiting. \<^verbatim>\<open>All_finished\<close>: \<^verbatim>\<open>wait_all_finish\<close> returns and the client is closed.
\<close>

datatype event =
    Launch
  | Task_done nat "exn + remote_dialog list option"
  | Done_callback nat
  | Source_exhausted
  | All_finished

fun run_step :: "nat \<Rightarrow> event \<Rightarrow> orchestrator \<Rightarrow> orchestrator option" where
  "run_step parallel Launch s =
     (case pending s of
        [] \<Rightarrow> None
      | file # rest \<Rightarrow>
          if phase s = Iterating \<and> sem_may_acquire parallel (counter s)
          then Some (s\<lparr>pending := rest, tasks := tasks s @ [Running],
                        counter := sem_acquire (counter s), acquires := acquires s + 1\<rparr>)
          else None)"
| "run_step parallel (Task_done i r) s =
     (if i < length (tasks s) \<and> tasks s ! i = Running
      then Some (s\<lparr>tasks := (tasks s)[i := Finished]\<rparr>)
      else None)"
| "run_step parallel (Done_callback i) s =
     (if i < length (tasks s) \<and> tasks s ! i = Finished
      then Some (s\<lparr>tasks := (tasks s)[i := Released],
                    counter := sem_release (counter s), releases := releases s @ [i]\<rparr>)
      else None)"
| "run_step parallel Source_exhausted s =
     (if phase s = Iterating \<and> pending s = [] then Some (s\<lparr>phase := Draining\<rparr>) else None)"
| "run_step parallel All_finished s =
     (if phase s = Draining \<and> sem_all_finished (counter s) then Some (s\<lparr>phase := Closed\<rparr>)
      else None)"

text \<open>A schedule is a list of events; it is possible when each event is enabled in turn.\<close>

fun run_events :: "nat \<Rightarrow> event list \<Rightarrow> orchestrator \<Rightarrow> orchestrator option" where
  "run_events parallel [] s = Some s"
| "run_events parallel (ev # evs) s =
     (case run_step parallel ev s of None \<Rightarrow> None | Some s' \<Rightarrow> run_events parallel evs s')"

definition run_start :: "file_read list \<Rightarrow> orchestrator" where
  "run_start files =
     \<lparr>pending = files, tasks = [], counter = 0, acquires = 0, releases = [], phase = Iterating\<rparr>"

definition run :: "file_read list \<Rightarrow> nat \<Rightarrow> event list \<Rightarrow> orchestrator option" where
  "run files parallel schedule = run_events parallel schedule (run_start files)"

text \<open>The upload units active in a state: the tasks whose coroutine has not ended.\<close>

definition active_units :: "orchestrator \<Rightarrow> nat" where
  "active_units s = length (filter (\<lambda>t. t = Running) (tasks s))"

text \<open>The tokens held: the tasks whose \<^verbatim>\<open>release()\<close> has not run yet.\<close>

definition unreleased :: "task_state list \<Rightarrow> nat" where
  "unreleased ts = length (filter (\<lambda>t. t \<noteq> Released) ts)"

text \<open>
  The invariant of the run loop: the counter counts the tasks whose \<^verbatim>\<open>release()\<close> has not run;
  there is one task per \<^verbatim>\<open>acquire()\<close>; the releases are those of the released tasks, once
  each; the counter never exceeds the parallelism; records are only pending while the loop
  iterates; and past \<^verbatim>\<open>wait_all_finish\<close> the counter is zero.
\<close>

definition run_inv :: "nat \<Rightarrow> orchestrator \<Rightarrow> bool" where
  "run_inv parallel s =
     (unreleased (tasks s) = counter s \<and>
      acquires s = length (tasks s) \<and>
      counter s + length (releases s) = acquires s \<and>
      distinct (releases s) \<and>
      set (releases s) = {i. i < length (tasks s) \<and> tasks s ! i = Released} \<and>
      counter s \<le> parallel \<and>
      (phase s \<noteq> Iterating \<longrightarrow> pending s = []) \<and>
      (phase s = Closed \<longrightarrow> counter s = 0))"

section \<open>Facts about single calls\<close>

lemmas run_defs =
  get_file_def upload_file_def upload_dialogs_def create_sequence_def upload_unit_def
  upload_subtitles_def send_def logger_def raise_for_status_def is_success_def
  response_json_def parse_file_def parse_dialogs_def series_id_truthy_def slice_or_def
  py_range0_def py_slice_def bulk_of_def scripted_def scripted_self_def world0_def
  ok_file_def ok_dialogs_def status_reply_def dialog_of_def file_of_def Let_def

lemma send_cases:
  "send self rq w =
     (case fst (client self rq (remote w)) of
        Inl msg \<Rightarrow> Inl (TransportError msg)
      | Inr r \<Rightarrow> Inr r,
      w\<lparr>remote := snd (client self rq (remote w)),
        sent := sent w @ [(rq, fst (client self rq (remote w)))]\<rparr>)"
  by (simp add: send_def split: prod.splits)

lemma get_file_sent:
  "get_file self sha w = (r, w') \<Longrightarrow>
   sent w' = sent w @ [(GET_file_sha1 sha, fst (client self (GET_file_sha1 sha) (remote w)))]"
  by (auto simp: get_file_def send_cases logger_def raise_for_status_def Let_def
      split: sum.splits if_splits)



section \<open>The existence lookup\<close>

text \<open>
  Claim C1, as the code has it. A not-found response makes \<^verbatim>\<open>get_file\<close> return \<^verbatim>\<open>None\<close>, and so
  does every other non-success status: the handler catches \<^verbatim>\<open>HTTPStatusError\<close> whatever the
  status, so a 500 returns \<^verbatim>\<open>None\<close> exactly as a 404 does, and no exception that leaves
  \<^verbatim>\<open>get_file\<close> is an \<^verbatim>\<open>HTTPStatusError\<close>. The theorem says more, all that \<^verbatim>\<open>get_file\<close> can
  raise: the transport failure of the request, or, on a success status, the error of decoding
  the body or of validating it as a file entity.
\<close>

theorem get_file_status_error_is_absence:
  "(\<forall>response srv'. client self (GET_file_sha1 sha) (remote w) = (Inr response, srv') \<and>
       \<not> is_success response \<longrightarrow>
       get_file self sha w =
         (Inr None, w\<lparr>remote := srv', sent := sent w @ [(GET_file_sha1 sha, Inr response)]\<rparr>)) \<and>
   (\<forall>msg srv'. client self (GET_file_sha1 sha) (remote w) = (Inl msg, srv') \<longrightarrow>
       fst (get_file self sha w) = Inl (TransportError msg)) \<and>
   (\<forall>e. fst (get_file self sha w) = Inl e \<longrightarrow> \<not> is_HTTPStatusError e) \<and>
   (\<forall>e. fst (get_file self sha w) = Inl e \<longrightarrow>
       (case fst (client self (GET_file_sha1 sha) (remote w)) of
          Inl msg \<Rightarrow> e = TransportError msg
        | Inr response \<Rightarrow>
            is_success response \<and>
            (case response_json response of
               Inl e' \<Rightarrow> e = e'
             | Inr j \<Rightarrow> parse_file j = Inl e)))"
  by (auto simp: get_file_def send_cases logger_def raise_for_status_def Let_def
      response_json_def parse_file_def
      split: sum.splits if_splits body.splits json.splits)

theorem get_file_status_error_is_absence_witness:
  "client (scripted_self 400) (GET_file_sha1 ''abc123'')
      (remote (world0 [status_reply 404 (Json (JOther ''not found''))])) =
     (Inr \<lparr>status_code = 404, body = Json (JOther ''not found'')\<rparr>, []) \<and>
   \<not> is_success \<lparr>status_code = 404, body = Json (JOther ''not found'')\<rparr> \<and>
   fst (get_file (scripted_self 400) ''abc123''
          (world0 [status_reply 404 (Json (JOther ''not found''))])) = Inr None \<and>
   client (scripted_self 400) (GET_file_sha1 ''abc123'') (remote (world0 [])) =
     (Inl ''connection closed'', []) \<and>
   fst (get_file (scripted_self 400) ''abc123'' (world0 [])) =
     Inl (TransportError ''connection closed'') \<and>
   \<not> is_HTTPStatusError (TransportError ''connection closed'')"
proof -
  have a: "client (scripted_self 400) (GET_file_sha1 ''abc123'')
      (remote (world0 [status_reply 404 (Json (JOther ''not found''))])) =
     (Inr \<lparr>status_code = 404, body = Json (JOther ''not found'')\<rparr>, []) \<and>
     \<not> is_success \<lparr>status_code = 404, body = Json (JOther ''not found'')\<rparr>"
    by (simp add: scripted_self_def scripted_def world0_def status_reply_def is_success_def)
  have b: "client (scripted_self 400) (GET_file_sha1 ''abc123'') (remote (world0 [])) =
     (Inl ''connection closed'', [])"
    by (simp add: scripted_self_def scripted_def world0_def)
  from a get_file_status_error_is_absence
    [of "scripted_self 400" "''abc123''" "world0 [status_reply 404 (Json (JOther ''not found''))]"]
  have c: "fst (get_file (scripted_self 400) ''abc123''
          (world0 [status_reply 404 (Json (JOther ''not found''))])) = Inr None"
    by simp
  from b get_file_status_error_is_absence [of "scripted_self 400" "''abc123''" "world0 []"]
  have d: "fst (get_file (scripted_self 400) ''abc123'' (world0 [])) =
     Inl (TransportError ''connection closed'')"
    by blast
  from d get_file_status_error_is_absence [of "scripted_self 400" "''abc123''" "world0 []"]
  have e: "\<not> is_HTTPStatusError (TransportError ''connection closed'')"
    by blast
  from a b c d e show ?thesis by blast
qed

text \<open>
  Claim C1 as stated fails: the service answers the lookup with status 500, a non-success
  status other than not-found, and \<^verbatim>\<open>get_file\<close> returns \<^verbatim>\<open>None\<close>; nothing is raised.
\<close>

theorem get_file_server_error_counterexample:
  "fst (get_file (scripted_self 400) ''abc123''
          (world0 [status_reply 500 (NotJson ''Internal Server Error'')])) = Inr None \<and>
   \<not> (\<exists>e. fst (get_file (scripted_self 400) ''abc123''
          (world0 [status_reply 500 (NotJson ''Internal Server Error'')])) = Inl e)"
  by (simp add: get_file_def send_def scripted_self_def scripted_def world0_def status_reply_def
      raise_for_status_def is_success_def)

section \<open>The dedup check\<close>

text \<open>
  Claim C2. When the existence lookup returns an entity, \<^verbatim>\<open>upload_subtitles\<close> returns
  normally with \<^verbatim>\<open>None\<close> in the very world the lookup left: the only request sent is the
  lookup's GET, so neither the create-file nor the create-dialogs call is issued.
\<close>

theorem dedup_skips_creation:
  "get_file self (sha1 file) w = (Inr (Some existing), w1) \<Longrightarrow>
   upload_subtitles self file w = (Inr None, w1) \<and>
   map fst (sent w1) = map fst (sent w) @ [GET_file_sha1 (sha1 file)]"
  by (simp add: upload_subtitles_def upload_unit_def get_file_sent)

theorem dedup_skips_creation_witness:
  "upload_subtitles (scripted_self 400) (file_of ''abc123'' (Some ''s1'') [''hello''])
     (world0 [ok_file ''f1'' ''abc123'']) =
   (Inr None,
    \<lparr>remote = [], sent = [(GET_file_sha1 ''abc123'', ok_file ''f1'' ''abc123'')],
     log = [Debug_file_existed ''abc123'']\<rparr>)"
proof -
  have h: "get_file (scripted_self 400) (sha1 (file_of ''abc123'' (Some ''s1'') [''hello'']))
      (world0 [ok_file ''f1'' ''abc123'']) =
    (Inr (Some \<lparr>rf_id = ''f1'', rf_sha1 = ''abc123''\<rparr>),
     \<lparr>remote = [], sent = [(GET_file_sha1 ''abc123'', ok_file ''f1'' ''abc123'')],
      log = [Debug_file_existed ''abc123'']\<rparr>)"
    by (simp add: get_file_def send_def scripted_self_def scripted_def world0_def ok_file_def
        file_of_def raise_for_status_def is_success_def logger_def response_json_def
        parse_file_def)
  show ?thesis using dedup_skips_creation [OF h] by simp
qed

section \<open>The precondition of create-file\<close>

text \<open>
  Claim C9. With a non-empty \<^verbatim>\<open>series_id\<close> the assertion of \<^verbatim>\<open>upload_file\<close> holds: whatever
  the service answers, the call does not end in \<^verbatim>\<open>AssertionError\<close>. Without one (absent or
  empty) it ends in \<^verbatim>\<open>AssertionError\<close> before anything is sent: the world is unchanged, so the
  failure is the caller's, not the remote service's.
\<close>

theorem upload_file_assertion:
  "(series_id_truthy file \<longrightarrow> fst (upload_file self file w) \<noteq> Inl AssertionError) \<and>
   (\<not> series_id_truthy file \<longrightarrow> upload_file self file w = (Inl AssertionError, w))"
  by (auto simp: upload_file_def series_id_truthy_def send_cases Let_def raise_for_status_def
      response_json_def parse_file_def
      split: option.splits sum.splits if_splits body.splits json.splits)

theorem upload_file_assertion_witness:
  "series_id_truthy (file_of ''def456'' (Some ''s1'') [''hi'']) \<and>
   fst (upload_file (scripted_self 400) (file_of ''def456'' (Some ''s1'') [''hi''])
          (world0 [ok_file ''f9'' ''def456''])) \<noteq> Inl AssertionError \<and>
   \<not> series_id_truthy (file_of ''def456'' None [''hi'']) \<and>
   upload_file (scripted_self 400) (file_of ''def456'' None [''hi''])
     (world0 [ok_file ''f9'' ''def456'']) =
     (Inl AssertionError, world0 [ok_file ''f9'' ''def456'']) \<and>
   \<not> series_id_truthy (file_of ''def456'' (Some []) [''hi'']) \<and>
   upload_file (scripted_self 400) (file_of ''def456'' (Some []) [''hi''])
     (world0 [ok_file ''f9'' ''def456'']) =
     (Inl AssertionError, world0 [ok_file ''f9'' ''def456''])"
proof -
  have a: "series_id_truthy (file_of ''def456'' (Some ''s1'') [''hi''])"
    by (simp add: series_id_truthy_def file_of_def)
  have b: "\<not> series_id_truthy (file_of ''def456'' None [''hi''])"
    by (simp add: series_id_truthy_def file_of_def)
  have c: "\<not> series_id_truthy (file_of ''def456'' (Some []) [''hi''])"
    by (simp add: series_id_truthy_def file_of_def)
  from a b c
    upload_file_assertion [of "file_of ''def456'' (Some ''s1'') [''hi'']" "scripted_self 400"
      "world0 [ok_file ''f9'' ''def456'']"]
    upload_file_assertion [of "file_of ''def456'' None [''hi'']" "scripted_self 400"
      "world0 [ok_file ''f9'' ''def456'']"]
    upload_file_assertion [of "file_of ''def456'' (Some []) [''hi'']" "scripted_self 400"
      "world0 [ok_file ''f9'' ''def456'']"]
  show ?thesis by blast
qed

section \<open>The upload unit: what it returns and what it raises\<close>

text \<open>
  Claim C10. \<^verbatim>\<open>upload_subtitles\<close> returns \<^verbatim>\<open>None\<close> when the lookup finds the record, and also when
  create-file or create-dialogs raises an \<^verbatim>\<open>HTTPStatusError\<close> that the handler contains (the
  body of the error response decodes); it returns a list, the dialog entities, exactly when
  lookup, create-file and create-dialogs all succeed. The value \<^verbatim>\<open>None\<close> does not tell a skip
  from a contained failure.
\<close>

theorem upload_subtitles_return_value:
  "(get_file self (sha1 file) w = (Inr (Some existing), wa) \<longrightarrow>
      fst (upload_subtitles self file w) = Inr None) \<and>
   (get_file self (sha1 file) w = (Inr None, wa) \<and>
    upload_file self file wa = (Inl (HTTPStatusError response), wb) \<and>
    response_json response = Inr data \<longrightarrow>
      fst (upload_subtitles self file w) = Inr None) \<and>
   (get_file self (sha1 file) w = (Inr None, wa) \<and>
    upload_file self file wa = (Inr file_response, wb) \<and>
    upload_dialogs self (rf_id file_response) (dialogs file) None wb =
      (Inl (HTTPStatusError response), wc) \<and>
    response_json response = Inr data \<longrightarrow>
      fst (upload_subtitles self file w) = Inr None) \<and>
   (fst (upload_subtitles self file w) = Inr (Some ds) \<longleftrightarrow>
      (\<exists>wa file_response wb wc.
         get_file self (sha1 file) w = (Inr None, wa) \<and>
         upload_file self file wa = (Inr file_response, wb) \<and>
         upload_dialogs self (rf_id file_response) (dialogs file) None wb = (Inr ds, wc)))"
  by (auto simp: upload_subtitles_def upload_unit_def create_sequence_def
      split: sum.splits option.splits prod.splits exn.splits)

theorem upload_subtitles_return_value_witness:
  "fst (upload_subtitles (scripted_self 2) (file_of ''abc123'' (Some ''s1'') [''a'', ''b'', ''c''])
          (world0 [ok_file ''f1'' ''abc123''])) = Inr None \<and>
   fst (upload_subtitles (scripted_self 2) (file_of ''def456'' (Some ''s1'') [''a'', ''b'', ''c''])
          (world0 [status_reply 404 (Json (JOther ''not found'')),
                   status_reply 500 (Json (JOther ''boom''))])) = Inr None \<and>
   fst (upload_subtitles (scripted_self 2) (file_of ''def456'' (Some ''s1'') [''a'', ''b'', ''c''])
          (world0 [status_reply 404 (Json (JOther ''not found'')), ok_file ''f9'' ''def456'',
                   ok_dialogs [''a'', ''b''], status_reply 500 (Json (JOther ''boom''))])) =
     Inr None \<and>
   fst (upload_subtitles (scripted_self 2) (file_of ''def456'' (Some ''s1'') [''a'', ''b'', ''c''])
          (world0 [status_reply 404 (Json (JOther ''not found'')), ok_file ''f9'' ''def456'',
                   ok_dialogs [''a'', ''b''], ok_dialogs [''c'']])) =
     Inr (Some [\<lparr>rd_id = ''a'', rd_content = ''a''\<rparr>, \<lparr>rd_id = ''b'', rd_content = ''b''\<rparr>,
                \<lparr>rd_id = ''c'', rd_content = ''c''\<rparr>])"
proof -
  let ?self = "scripted_self 2"
  let ?old = "file_of ''abc123'' (Some ''s1'') [''a'', ''b'', ''c'']"
  let ?new = "file_of ''def456'' (Some ''s1'') [''a'', ''b'', ''c'']"
  let ?nf = "status_reply 404 (Json (JOther ''not found''))"
  let ?boom = "status_reply 500 (Json (JOther ''boom''))"
  let ?r500 = "\<lparr>status_code = 500, body = Json (JOther ''boom'')\<rparr>"
  let ?f9 = "\<lparr>rf_id = ''f9'', rf_sha1 = ''def456''\<rparr>"
  let ?abc = "[\<lparr>rd_id = ''a'', rd_content = ''a''\<rparr>, \<lparr>rd_id = ''b'', rd_content = ''b''\<rparr>,
                \<lparr>rd_id = ''c'', rd_content = ''c''\<rparr>]"
  let ?wA = "world0 [ok_file ''f1'' ''abc123'']"
  let ?wB = "world0 [?nf, ?boom]"
  let ?wC = "world0 [?nf, ok_file ''f9'' ''def456'', ok_dialogs [''a'', ''b''], ?boom]"
  let ?wD = "world0 [?nf, ok_file ''f9'' ''def456'', ok_dialogs [''a'', ''b''], ok_dialogs [''c'']]"
  obtain e0 u0 where a: "get_file ?self (sha1 ?old) ?wA = (Inr (Some e0), u0)"
    by (simp add: run_defs)
  obtain ub1 ub2 where b: "get_file ?self (sha1 ?new) ?wB = (Inr None, ub1) \<and>
      upload_file ?self ?new ub1 = (Inl (HTTPStatusError ?r500), ub2) \<and>
      response_json ?r500 = Inr (JOther ''boom'')"
    by (simp add: run_defs)
  obtain uc1 uc2 uc3 where c: "get_file ?self (sha1 ?new) ?wC = (Inr None, uc1) \<and>
      upload_file ?self ?new uc1 = (Inr ?f9, uc2) \<and>
      upload_dialogs ?self (rf_id ?f9) (dialogs ?new) None uc2 =
        (Inl (HTTPStatusError ?r500), uc3) \<and>
      response_json ?r500 = Inr (JOther ''boom'')"
    by (simp add: run_defs)
  obtain ud1 ud2 ud3 where d: "get_file ?self (sha1 ?new) ?wD = (Inr None, ud1) \<and>
      upload_file ?self ?new ud1 = (Inr ?f9, ud2) \<and>
      upload_dialogs ?self (rf_id ?f9) (dialogs ?new) None ud2 = (Inr ?abc, ud3)"
    by (simp add: run_defs)
  have a': "fst (upload_subtitles ?self ?old ?wA) = Inr None"
    using a upload_subtitles_return_value [of ?self ?old ?wA e0 u0]
    by simp
  have b': "fst (upload_subtitles ?self ?new ?wB) = Inr None"
    using b upload_subtitles_return_value [of ?self ?new ?wB _ ub1 ?r500 ub2 "JOther ''boom''"]
    by simp
  have c': "fst (upload_subtitles ?self ?new ?wC) = Inr None"
    using c upload_subtitles_return_value
      [of ?self ?new ?wC _ uc1 ?r500 uc2 "JOther ''boom''" ?f9 uc3]
    by simp
  have d': "fst (upload_subtitles ?self ?new ?wD) = Inr (Some ?abc)"
    using d upload_subtitles_return_value [of ?self ?new ?wD _ _ _ _ _ _ _ ?abc]
    by blast
  from a' b' c' d' show ?thesis by blast
qed




section \<open>Containment of remote rejections\<close>

text \<open>
  When the body of the error response decodes as JSON, the handler writes the status code
  and the decoded body to the log and the unit returns \<^verbatim>\<open>None\<close>.
\<close>

lemma http_error_contained_when_body_is_json:
  "get_file self (sha1 file) w = (Inr None, wa) \<Longrightarrow>
   create_sequence self file wa = (Inl (HTTPStatusError response), wb) \<Longrightarrow>
   response_json response = Inr data \<Longrightarrow>
   upload_subtitles self file w =
     (Inr None, logger (Error_server_respond (status_code response) data) wb)"
  by (simp add: upload_subtitles_def upload_unit_def)

text \<open>
  Claim C4 fails on the code when it does not. The service has no record of the hash (404)
  and a proxy answers the create-file call with 502 and an HTML page. \<^verbatim>\<open>raise_for_status\<close>
  raises \<^verbatim>\<open>HTTPStatusError\<close>, the handler is entered, and \<^verbatim>\<open>response.json()\<close> inside its log
  call raises in turn: no error line with the status is written, and the decoding error
  leaves \<^verbatim>\<open>upload_subtitles\<close> through the outer handler.
\<close>

theorem upload_subtitles_non_json_error_body_escapes:
  "upload_subtitles (scripted_self 400) (file_of ''def456'' (Some ''s1'') [''hi''])
     (world0 [status_reply 404 (Json (JOther ''not found'')),
              status_reply 502 (NotJson ''<html>Bad Gateway</html>'')]) =
   (Inl JSONDecodeError,
    \<lparr>remote = [],
     sent = [(GET_file_sha1 ''def456'', status_reply 404 (Json (JOther ''not found''))),
             (POST_files \<lparr>fc_filename = ''ep01.ass'', fc_sha1 = ''def456'',
                           fc_series_id = ''s1'', fc_remark = ''/subs/ep01.ass'',
                           fc_user_id = ''u1''\<rparr>,
              status_reply 502 (NotJson ''<html>Bad Gateway</html>''))],
     log = [Exception_occurred JSONDecodeError]\<rparr>)"
  by (simp add: run_defs)

section \<open>Facts about the chunk loop\<close>

lemma chunk_ok_step:
  assumes "upload_chunks self fid bulk n (b # rest) acc w = (Inr res, w')"
  shows "case fst (client self (bulk_call bulk n b) (remote w)) of
           Inl _ \<Rightarrow> False
         | Inr r \<Rightarrow>
             is_success r \<and> chunk_failure (Inr r) = None \<and>
             upload_chunks self fid bulk n rest (acc @ entities_of r)
               (logger (Debug_dialogs_synced fid b (b + n) (length bulk))
                 (w\<lparr>remote := snd (client self (bulk_call bulk n b) (remote w)),
                    sent := sent w @ [(bulk_call bulk n b, Inr r)]\<rparr>)) = (Inr res, w')"
  using assms
  by (auto simp: send_cases Let_def raise_for_status_def entities_of_def
      chunk_failure_def bulk_call_def split: prod.splits sum.splits if_splits)

lemma upload_chunks_ok:
  "upload_chunks self fid bulk n offs acc w = (Inr res, w') \<Longrightarrow>
   \<exists>rs. length rs = length offs \<and> (\<forall>r\<in>set rs. is_success r \<and> chunk_failure (Inr r) = None) \<and>
        sent w' = sent w @ zip (map (bulk_call bulk n) offs) (map Inr rs) \<and>
        res = acc @ concat (map entities_of rs)"
proof (induction offs arbitrary: acc w)
  case Nil
  then show ?case by simp
next
  case (Cons b rest)
  let ?w1 = "\<lambda>r. logger (Debug_dialogs_synced fid b (b + n) (length bulk))
                 (w\<lparr>remote := snd (client self (bulk_call bulk n b) (remote w)),
                    sent := sent w @ [(bulk_call bulk n b, Inr r)]\<rparr>)"
  from chunk_ok_step [OF Cons.prems] obtain r where
    ok: "is_success r" "chunk_failure (Inr r) = None"
    and rec: "upload_chunks self fid bulk n rest (acc @ entities_of r) (?w1 r) = (Inr res, w')"
    by (auto split: sum.splits)
  have s: "sent (?w1 r) = sent w @ [(bulk_call bulk n b, Inr r)]"
    by (simp add: logger_def)
  from Cons.IH [OF rec] obtain rs where
    rs: "length rs = length rest" "\<forall>r\<in>set rs. is_success r \<and> chunk_failure (Inr r) = None"
      "sent w' = sent (?w1 r) @ zip (map (bulk_call bulk n) rest) (map Inr rs)"
      "res = (acc @ entities_of r) @ concat (map entities_of rs)"
    by blast
  show ?case
    by (rule exI [of _ "r # rs"]) (use ok s rs in simp)
qed

lemma chunk_err_step:
  assumes "upload_chunks self fid bulk n (b # rest) acc w = (Inl e, w')"
  shows "case fst (client self (bulk_call bulk n b) (remote w)) of
           Inl msg \<Rightarrow> chunk_failure (Inl msg) = Some e \<and>
             sent w' = sent w @ [(bulk_call bulk n b, Inl msg)]
         | Inr r \<Rightarrow>
             (chunk_failure (Inr r) = Some e \<and>
              sent w' = sent w @ [(bulk_call bulk n b, Inr r)]) \<or>
             (is_success r \<and> chunk_failure (Inr r) = None \<and>
              upload_chunks self fid bulk n rest (acc @ entities_of r)
               (logger (Debug_dialogs_synced fid b (b + n) (length bulk))
                 (w\<lparr>remote := snd (client self (bulk_call bulk n b) (remote w)),
                    sent := sent w @ [(bulk_call bulk n b, Inr r)]\<rparr>)) = (Inl e, w'))"
  using assms
  by (auto simp: send_cases Let_def raise_for_status_def entities_of_def logger_def
      chunk_failure_def bulk_call_def split: prod.splits sum.splits if_splits)

lemma upload_chunks_err:
  "upload_chunks self fid bulk n offs acc w = (Inl e, w') \<Longrightarrow>
   \<exists>k rs rp. k < length offs \<and> length rs = k \<and>
        (\<forall>r\<in>set rs. is_success r \<and> chunk_failure (Inr r) = None) \<and>
        chunk_failure rp = Some e \<and>
        sent w' = sent w @ zip (map (bulk_call bulk n) (take k offs)) (map Inr rs) @
                  [(bulk_call bulk n (offs ! k), rp)]"
proof (induction offs arbitrary: acc w)
  case Nil
  then show ?case by simp
next
  case (Cons b rest)
  let ?w1 = "\<lambda>r. logger (Debug_dialogs_synced fid b (b + n) (length bulk))
                 (w\<lparr>remote := snd (client self (bulk_call bulk n b) (remote w)),
                    sent := sent w @ [(bulk_call bulk n b, Inr r)]\<rparr>)"
  from chunk_err_step [OF Cons.prems] consider
    (here) rp where "chunk_failure rp = Some e" "sent w' = sent w @ [(bulk_call bulk n b, rp)]"
  | (later) r where "is_success r" "chunk_failure (Inr r) = None"
      "upload_chunks self fid bulk n rest (acc @ entities_of r) (?w1 r) = (Inl e, w')"
    by (auto split: sum.splits)
  then show ?case
  proof cases
    case here
    show ?thesis
      by (rule exI [of _ 0], rule exI [of _ "[]"], rule exI [of _ rp]) (use here in simp)
  next
    case later
    have s: "sent (?w1 r) = sent w @ [(bulk_call bulk n b, Inr r)]"
      by (simp add: logger_def)
    from Cons.IH [OF later(3)] obtain k rs rp where
      k: "k < length rest" "length rs = k"
        "\<forall>r\<in>set rs. is_success r \<and> chunk_failure (Inr r) = None"
        "chunk_failure rp = Some e"
        "sent w' = sent (?w1 r) @ zip (map (bulk_call bulk n) (take k rest)) (map Inr rs) @
                  [(bulk_call bulk n (rest ! k), rp)]"
      by blast
    show ?thesis
      by (rule exI [of _ "Suc k"], rule exI [of _ "r # rs"], rule exI [of _ rp])
        (use later s k in simp)
  qed
qed

lemma length_slices: "length (slices n xs) = (length xs + n - 1) div n"
  by (simp add: slices_def)








lemma upload_dialogs_unfold:
  assumes "1 \<le> slice_or slice (upload_slice self)"
  shows "upload_dialogs self file_id ds slice w =
     upload_chunks self file_id (bulk_of self file_id ds)
       (nat (slice_or slice (upload_slice self)))
       (map (\<lambda>k. k * nat (slice_or slice (upload_slice self)))
          [0..<(length ds + nat (slice_or slice (upload_slice self)) - 1) div
                nat (slice_or slice (upload_slice self))])
       [] w"
  using assms by (simp add: upload_dialogs_def py_range0_def Let_def bulk_of_def)

lemma upload_dialogs_calls:
  assumes "1 \<le> slice_or slice (upload_slice self)"
  shows "map (bulk_call (bulk_of self file_id ds) (nat (slice_or slice (upload_slice self))))
       (map (\<lambda>k. k * nat (slice_or slice (upload_slice self)))
          [0..<(length ds + nat (slice_or slice (upload_slice self)) - 1) div
                nat (slice_or slice (upload_slice self))]) =
     map POST_dialogs_bulk
       (slices (nat (slice_or slice (upload_slice self))) (bulk_of self file_id ds))"
  by (simp add: bulk_call_def py_slice_def drop_take slices_def bulk_of_def)

section \<open>Chunked upload of the dialogs\<close>



text \<open>
  Claim C7. With a slice size \<open>S \<ge> 1\<close>, when \<^verbatim>\<open>upload_dialogs\<close> raises, some chunk \<open>k\<close> of the
  partition is the one whose call failed (no reply, a non-success status, or a body that does
  not parse) and the exception raised is that failure, unchanged. The requests sent are the
  bulk calls of the chunks before \<open>k\<close>, each answered with a success and parsed, then the call
  of chunk \<open>k\<close>, and nothing after it: no later chunk, and no call that would undo the chunks
  already created. Conversely, a call that returns has met no failing reply.
\<close>

theorem upload_dialogs_partial_failure:
  fixes file_id :: string and ds :: "dialog_read list"
  assumes pos: "1 \<le> slice_or slice (upload_slice self)"
  defines "S \<equiv> nat (slice_or slice (upload_slice self))"
    and "bulk \<equiv> bulk_of self file_id ds"
  shows "(upload_dialogs self file_id ds slice w = (Inl e, w') \<longrightarrow>
           (\<exists>k rs rp. k < length (slices S bulk) \<and> length rs = k \<and>
              (\<forall>r\<in>set rs. is_success r \<and> chunk_failure (Inr r) = None) \<and>
              chunk_failure rp = Some e \<and>
              sent w' = sent w @ zip (map POST_dialogs_bulk (take k (slices S bulk))) (map Inr rs) @
                        [(POST_dialogs_bulk (slices S bulk ! k), rp)])) \<and>
         (upload_dialogs self file_id ds slice w = (Inr res, w') \<longrightarrow>
           (\<forall>x\<in>set (drop (length (sent w)) (sent w')). chunk_failure (snd x) = None))"
proof (intro conjI impI)
  let ?offs = "map (\<lambda>k. k * S) [0..<(length ds + S - 1) div S]"
  have calls: "map (bulk_call bulk S) ?offs = map POST_dialogs_bulk (slices S bulk)"
    using upload_dialogs_calls [OF pos, of file_id ds] by (simp add: S_def bulk_def)
  have lens: "length ?offs = length (slices S bulk)"
    by (simp add: length_slices bulk_def bulk_of_def)
  {
    assume err: "upload_dialogs self file_id ds slice w = (Inl e, w')"
    have run: "upload_chunks self file_id bulk S ?offs [] w = (Inl e, w')"
      using err upload_dialogs_unfold [OF pos, of file_id ds w] by (simp add: S_def bulk_def)
    from upload_chunks_err [OF run] obtain k rs rp where
      k: "k < length ?offs" "length rs = k"
        "\<forall>r\<in>set rs. is_success r \<and> chunk_failure (Inr r) = None"
        "chunk_failure rp = Some e"
        "sent w' = sent w @ zip (map (bulk_call bulk S) (take k ?offs)) (map Inr rs) @
                  [(bulk_call bulk S (?offs ! k), rp)]"
      by blast
    have t: "map (bulk_call bulk S) (take k ?offs) = map POST_dialogs_bulk (take k (slices S bulk))"
      using calls by (metis take_map)
    have n: "bulk_call bulk S (?offs ! k) = POST_dialogs_bulk (slices S bulk ! k)"
      using calls k(1) lens by (metis nth_map)
    show "\<exists>k rs rp. k < length (slices S bulk) \<and> length rs = k \<and>
              (\<forall>r\<in>set rs. is_success r \<and> chunk_failure (Inr r) = None) \<and>
              chunk_failure rp = Some e \<and>
              sent w' = sent w @ zip (map POST_dialogs_bulk (take k (slices S bulk))) (map Inr rs) @
                        [(POST_dialogs_bulk (slices S bulk ! k), rp)]"
      by (rule exI [of _ k], rule exI [of _ rs], rule exI [of _ rp]) (use k t n lens in simp)
  }
  {
    assume ok: "upload_dialogs self file_id ds slice w = (Inr res, w')"
    have run: "upload_chunks self file_id bulk S ?offs [] w = (Inr res, w')"
      using ok upload_dialogs_unfold [OF pos, of file_id ds w] by (simp add: S_def bulk_def)
    from upload_chunks_ok [OF run] obtain rs where
      rs: "length rs = length ?offs" "\<forall>r\<in>set rs. is_success r \<and> chunk_failure (Inr r) = None"
        "sent w' = sent w @ zip (map (bulk_call bulk S) ?offs) (map Inr rs)"
      by blast
    show "\<forall>x\<in>set (drop (length (sent w)) (sent w')). chunk_failure (snd x) = None"
      using rs(2) by (auto simp: rs(3) dest!: set_zip_rightD)
  }
qed

theorem upload_dialogs_partial_failure_witness:
  "1 \<le> slice_or None (upload_slice (scripted_self 2)) \<and>
   fst (upload_dialogs (scripted_self 2) ''f9'' (map dialog_of [''a'', ''b'', ''c'', ''d'', ''e''])
          None (world0 [ok_dialogs [''a'', ''b''], status_reply 500 (Json (JOther ''boom'')),
                        ok_dialogs [''e'']])) =
     Inl (HTTPStatusError \<lparr>status_code = 500, body = Json (JOther ''boom'')\<rparr>) \<and>
   length (sent (snd (upload_dialogs (scripted_self 2) ''f9''
          (map dialog_of [''a'', ''b'', ''c'', ''d'', ''e'']) None
          (world0 [ok_dialogs [''a'', ''b''], status_reply 500 (Json (JOther ''boom'')),
                   ok_dialogs [''e'']])))) \<le> 3 \<and>
   map fst (sent (snd (upload_dialogs (scripted_self 2) ''f9''
          (map dialog_of [''a'', ''b'', ''c'', ''d'', ''e'']) None
          (world0 [ok_dialogs [''a'', ''b''], status_reply 500 (Json (JOther ''boom'')),
                   ok_dialogs [''e'']])))) =
     map POST_dialogs_bulk
       (take 2 (slices 2 (bulk_of (scripted_self 2) ''f9''
          (map dialog_of [''a'', ''b'', ''c'', ''d'', ''e''])))) \<and>
   list_all (\<lambda>x. chunk_failure (snd x) = None)
     (sent (snd (upload_dialogs (scripted_self 2) ''f9''
          (map dialog_of [''a'', ''b'', ''c'', ''d'', ''e'']) None
          (world0 [ok_dialogs [''a'', ''b''], ok_dialogs [''c'', ''d''], ok_dialogs [''e'']]))))"
proof -
  let ?self = "scripted_self 2"
  let ?ds = "map dialog_of [''a'', ''b'', ''c'', ''d'', ''e'']"
  let ?w = "world0 [ok_dialogs [''a'', ''b''], status_reply 500 (Json (JOther ''boom'')),
                        ok_dialogs [''e'']]"
  let ?v = "world0 [ok_dialogs [''a'', ''b''], ok_dialogs [''c'', ''d''], ok_dialogs [''e'']]"
  let ?e = "HTTPStatusError \<lparr>status_code = 500, body = Json (JOther ''boom'')\<rparr>"
  have S: "nat (slice_or None (upload_slice ?self)) = 2"
    by (simp add: slice_or_def scripted_self_def)
  have pos: "1 \<le> slice_or None (upload_slice ?self)"
    by (simp add: slice_or_def scripted_self_def)
  obtain w' where err: "upload_dialogs ?self ''f9'' ?ds None ?w = (Inl ?e, w')"
    by (simp add: run_defs upt_rec)
  obtain res v' where ok: "upload_dialogs ?self ''f9'' ?ds None ?v = (Inr res, v')"
    by (simp add: run_defs upt_rec)
  have w0: "sent ?w = []" "sent ?v = []"
    by (simp_all add: world0_def)
  have m: "length (slices 2 (bulk_of ?self ''f9'' ?ds)) = 3"
    by (simp add: slices_def bulk_of_def)
  from err upload_dialogs_partial_failure [OF pos, of "''f9''" ?ds ?w ?e w'] obtain k rs rp where
    k: "k < length (slices 2 (bulk_of ?self ''f9'' ?ds))" "length rs = k"
      "sent w' = sent ?w @ zip (map POST_dialogs_bulk (take k (slices 2 (bulk_of ?self ''f9'' ?ds))))
         (map Inr rs) @ [(POST_dialogs_bulk (slices 2 (bulk_of ?self ''f9'' ?ds) ! k), rp)]"
    unfolding S by blast
  have a: "length (sent w') \<le> 3"
    using k m by (simp add: w0)
  from ok upload_dialogs_partial_failure [OF pos, of "''f9''" ?ds ?v _ v' res]
  have b: "\<forall>x\<in>set (drop 0 (sent v')). chunk_failure (snd x) = None"
    by (simp add: w0)
  have c: "map fst (sent (snd (upload_dialogs ?self ''f9'' ?ds None ?w))) =
      map POST_dialogs_bulk (take 2 (slices 2 (bulk_of ?self ''f9'' ?ds)))"
    by (simp add: run_defs slices_def upt_rec)
  from pos err ok a b c show ?thesis by (simp add: list_all_iff)
qed

section \<open>Facts about the run loop\<close>

lemma unreleased_append: "unreleased (ts @ [t]) = unreleased ts + (if t = Released then 0 else 1)"
  by (simp add: unreleased_def)

lemma unreleased_update:
  "i < length ts \<Longrightarrow>
   unreleased (ts[i := t]) + (if ts ! i = Released then 0 else 1) =
   unreleased ts + (if t = Released then 0 else 1)"
proof (induction ts arbitrary: i)
  case Nil
  then show ?case by simp
next
  case (Cons a ts)
  show ?case
  proof (cases i)
    case 0
    then show ?thesis by (simp add: unreleased_def)
  next
    case (Suc j)
    with Cons.prems have "j < length ts" by simp
    from Cons.IH [OF this] Suc show ?thesis
      by (auto simp: unreleased_def split: if_splits)
  qed
qed

lemma active_le_unreleased: "length (filter (\<lambda>t. t = Running) ts) \<le> unreleased ts"
  by (induction ts) (simp_all add: unreleased_def)

lemma unreleased_pos:
  "0 < unreleased ts \<Longrightarrow> \<exists>i<length ts. ts ! i = Running \<or> ts ! i = Finished"
proof -
  assume "0 < unreleased ts"
  then have "filter (\<lambda>t. t \<noteq> Released) ts \<noteq> []"
    by (simp add: unreleased_def)
  then obtain t where t: "t \<in> set ts" "t \<noteq> Released"
    by (auto simp: filter_empty_conv)
  then obtain i where "i < length ts" "ts ! i = t"
    by (auto simp: in_set_conv_nth)
  with t show ?thesis by (metis task_state.exhaust)
qed

lemma run_inv_start: "run_inv parallel (run_start files)"
  by (simp add: run_inv_def run_start_def unreleased_def)

lemma run_inv_step:
  assumes inv: "run_inv parallel s" and step: "run_step parallel ev s = Some s'"
  shows "run_inv parallel s'"
proof -
  from inv have c: "unreleased (tasks s) = counter s"
    and a: "acquires s = length (tasks s)"
    and l: "counter s + length (releases s) = length (tasks s)"
    and d: "distinct (releases s)"
    and r: "set (releases s) = {i. i < length (tasks s) \<and> tasks s ! i = Released}"
    and b: "counter s \<le> parallel"
    and p: "phase s \<noteq> Iterating \<longrightarrow> pending s = []"
    and z: "phase s = Closed \<longrightarrow> counter s = 0"
    by (simp_all add: run_inv_def)
  show ?thesis
  proof (cases ev)
    case Launch
    with step obtain f rest where "pending s = f # rest"
      and en: "phase s = Iterating" "counter s < parallel"
      and s': "s' = s\<lparr>pending := rest, tasks := tasks s @ [Running],
                       counter := counter s + 1, acquires := acquires s + 1\<rparr>"
      by (auto simp: sem_may_acquire_def sem_acquire_def split: list.splits if_splits)
    have e: "{i. i < Suc (length (tasks s)) \<and> (tasks s @ [Running]) ! i = Released} =
          {i. i < length (tasks s) \<and> tasks s ! i = Released}"
      by (auto simp: nth_append less_Suc_eq)
    show ?thesis
      unfolding run_inv_def s' using c a l d r en e by (simp add: unreleased_append)
  next
    case (Task_done i r')
    with step have i: "i < length (tasks s)" "tasks s ! i = Running"
      and s': "s' = s\<lparr>tasks := (tasks s)[i := Finished]\<rparr>"
      by (auto split: if_splits)
    from unreleased_update [OF i(1), of Finished] i(2)
    have u: "unreleased ((tasks s)[i := Finished]) = unreleased (tasks s)"
      by simp
    have e: "{j. j < length (tasks s) \<and> (tasks s)[i := Finished] ! j = Released} =
          {j. j < length (tasks s) \<and> tasks s ! j = Released}"
      using i by (auto simp: nth_list_update)
    show ?thesis
      unfolding run_inv_def s' using c a l d r b p z u e by simp
  next
    case (Done_callback i)
    with step have i: "i < length (tasks s)" "tasks s ! i = Finished"
      and s': "s' = s\<lparr>tasks := (tasks s)[i := Released],
                       counter := counter s - 1, releases := releases s @ [i]\<rparr>"
      by (auto simp: sem_release_def split: if_splits)
    from unreleased_update [OF i(1), of Released] i(2)
    have u: "unreleased ((tasks s)[i := Released]) + 1 = counter s"
      by (simp add: c)
    then have u': "unreleased ((tasks s)[i := Released]) = counter s - 1" and pos: "0 < counter s"
      by simp_all
    have n: "i \<notin> set (releases s)"
      using i by (simp add: r)
    have e: "{j. j < length (tasks s) \<and> (tasks s)[i := Released] ! j = Released} =
          insert i {j. j < length (tasks s) \<and> tasks s ! j = Released}"
      using i by (auto simp: nth_list_update)
    have nc: "phase s \<noteq> Closed"
      using z pos by auto
    have lt: "0 < length (tasks s)"
      using i(1) by auto
    have b': "counter s - 1 \<le> parallel"
      using b by simp
    show ?thesis
      unfolding run_inv_def s' using a l d r b' p u' pos n e nc lt by simp
  next
    case Source_exhausted
    with step have en: "phase s = Iterating" "pending s = []"
      and s': "s' = s\<lparr>phase := Draining\<rparr>"
      by (auto split: if_splits)
    show ?thesis
      unfolding run_inv_def s' using c a l d r b en by simp
  next
    case All_finished
    with step have en: "phase s = Draining" "counter s = 0"
      and s': "s' = s\<lparr>phase := Closed\<rparr>"
      by (auto simp: sem_all_finished_def split: if_splits)
    show ?thesis
      unfolding run_inv_def s' using c a l d r b p en by simp
  qed
qed

lemma run_inv_events:
  "run_inv parallel s \<Longrightarrow> run_events parallel evs s = Some s' \<Longrightarrow> run_inv parallel s'"
proof (induction evs arbitrary: s)
  case Nil
  then show ?case by simp
next
  case (Cons ev evs)
  from Cons.prems(2) obtain s1 where s1: "run_step parallel ev s = Some s1"
    and rest: "run_events parallel evs s1 = Some s'"
    by (auto split: option.splits)
  from run_inv_step [OF Cons.prems(1) s1] rest show ?case
    by (rule Cons.IH)
qed

lemma run_inv_run: "run files parallel schedule = Some s \<Longrightarrow> run_inv parallel s"
  unfolding run_def by (rule run_inv_events [OF run_inv_start])

lemma run_events_take:
  "run_events parallel evs s = Some s' \<Longrightarrow> \<exists>s''. run_events parallel (take n evs) s = Some s''"
proof (induction evs arbitrary: s n)
  case Nil
  then show ?case by simp
next
  case (Cons ev evs)
  from Cons.prems obtain s1 where s1: "run_step parallel ev s = Some s1"
    and rest: "run_events parallel evs s1 = Some s'"
    by (auto split: option.splits)
  show ?case
  proof (cases n)
    case 0
    then show ?thesis by simp
  next
    case (Suc m)
    from Cons.IH [OF rest, of m] s1 Suc show ?thesis by simp
  qed
qed

section \<open>The orchestrator: slots and concurrency\<close>

text \<open>
  Claim C5. In every state the run loop can reach, by any schedule: there is one task per
  \<^verbatim>\<open>acquire()\<close>; the releases are those of the tasks whose done-callback has run, once each, so
  no task is released twice and none before it has finished; the counter is the number of
  \<^verbatim>\<open>acquire()\<close> calls not yet matched by a \<^verbatim>\<open>release()\<close>. When a task ends, with a value or
  with an exception, its callback is enabled and releases exactly its slot. Past
  \<^verbatim>\<open>wait_all_finish\<close> the counter is zero, no record is pending and every task has been
  released, once. And the loop is never stuck (with a parallelism of at least 1): short of
  that point some event is enabled.
\<close>

theorem slot_conservation:
  assumes "run files parallel schedule = Some s"
  shows "acquires s = length (tasks s) \<and>
         distinct (releases s) \<and>
         set (releases s) = {i. i < acquires s \<and> tasks s ! i = Released} \<and>
         counter s + length (releases s) = acquires s \<and>
         counter s = unreleased (tasks s) \<and>
         (\<forall>i r s'. run_step parallel (Task_done i r) s = Some s' \<longrightarrow>
            0 < counter s \<and> i \<notin> set (releases s) \<and>
            run_step parallel (Done_callback i) s' =
              Some (s'\<lparr>tasks := (tasks s')[i := Released], counter := counter s - 1,
                       releases := releases s @ [i]\<rparr>)) \<and>
         (phase s = Closed \<longrightarrow>
            counter s = 0 \<and> pending s = [] \<and> length (releases s) = acquires s \<and>
            set (releases s) = {0..<acquires s}) \<and>
         (1 \<le> parallel \<and> phase s \<noteq> Closed \<longrightarrow> (\<exists>ev s'. run_step parallel ev s = Some s'))"
proof -
  from run_inv_run [OF assms] have c: "unreleased (tasks s) = counter s"
    and a: "acquires s = length (tasks s)"
    and l: "counter s + length (releases s) = length (tasks s)"
    and d: "distinct (releases s)"
    and r: "set (releases s) = {i. i < length (tasks s) \<and> tasks s ! i = Released}"
    and b: "counter s \<le> parallel"
    and p: "phase s \<noteq> Iterating \<longrightarrow> pending s = []"
    and z: "phase s = Closed \<longrightarrow> counter s = 0"
    by (simp_all add: run_inv_def)
  have t: "\<forall>i r s'. run_step parallel (Task_done i r) s = Some s' \<longrightarrow>
            0 < counter s \<and> i \<notin> set (releases s) \<and>
            run_step parallel (Done_callback i) s' =
              Some (s'\<lparr>tasks := (tasks s')[i := Released], counter := counter s - 1,
                       releases := releases s @ [i]\<rparr>)"
  proof (intro allI impI)
    fix i r s'
    assume "run_step parallel (Task_done i r) s = Some s'"
    then have i: "i < length (tasks s)" "tasks s ! i = Running"
      and s': "s' = s\<lparr>tasks := (tasks s)[i := Finished]\<rparr>"
      by (auto split: if_splits)
    from unreleased_update [OF i(1), of Released] i(2) have "0 < counter s"
      by (simp add: c)
    moreover have "i \<notin> set (releases s)"
      using i by (simp add: r)
    moreover have "run_step parallel (Done_callback i) s' =
              Some (s'\<lparr>tasks := (tasks s')[i := Released], counter := counter s - 1,
                       releases := releases s @ [i]\<rparr>)"
      using i by (simp add: s' sem_release_def)
    ultimately show "0 < counter s \<and> i \<notin> set (releases s) \<and>
            run_step parallel (Done_callback i) s' =
              Some (s'\<lparr>tasks := (tasks s')[i := Released], counter := counter s - 1,
                       releases := releases s @ [i]\<rparr>)"
      by blast
  qed
  have f: "phase s = Closed \<longrightarrow>
            counter s = 0 \<and> pending s = [] \<and> length (releases s) = acquires s \<and>
            set (releases s) = {0..<acquires s}"
  proof
    assume cl: "phase s = Closed"
    with z p have z0: "counter s = 0" and p0: "pending s = []"
      by simp_all
    from l z0 have n: "length (releases s) = length (tasks s)"
      by simp
    have sub: "set (releases s) \<subseteq> {0..<length (tasks s)}"
      by (auto simp: r)
    have "card (set (releases s)) = card {0..<length (tasks s)}"
      using d n by (simp add: distinct_card)
    with sub have "set (releases s) = {0..<length (tasks s)}"
      by (intro card_subset_eq) simp_all
    with z0 p0 n a show "counter s = 0 \<and> pending s = [] \<and> length (releases s) = acquires s \<and>
            set (releases s) = {0..<acquires s}"
      by simp
  qed
  have g: "1 \<le> parallel \<and> phase s \<noteq> Closed \<longrightarrow> (\<exists>ev s'. run_step parallel ev s = Some s')"
  proof
    assume h: "1 \<le> parallel \<and> phase s \<noteq> Closed"
    have task: "\<exists>ev s'. run_step parallel ev s = Some s'" if "0 < counter s"
    proof -
      from that c unreleased_pos [of "tasks s"] obtain i where
        i: "i < length (tasks s)" "tasks s ! i = Running \<or> tasks s ! i = Finished"
        by auto
      from i(2) show ?thesis
      proof
        assume "tasks s ! i = Running"
        with i(1) have "run_step parallel (Task_done i (Inr None)) s =
            Some (s\<lparr>tasks := (tasks s)[i := Finished]\<rparr>)"
          by simp
        then show ?thesis by blast
      next
        assume "tasks s ! i = Finished"
        with i(1) have "run_step parallel (Done_callback i) s =
            Some (s\<lparr>tasks := (tasks s)[i := Released], counter := sem_release (counter s),
                    releases := releases s @ [i]\<rparr>)"
          by simp
        then show ?thesis by blast
      qed
    qed
    show "\<exists>ev s'. run_step parallel ev s = Some s'"
    proof (cases "phase s")
      case Iterating
      show ?thesis
      proof (cases "pending s")
        case Nil
        with Iterating have "run_step parallel Source_exhausted s = Some (s\<lparr>phase := Draining\<rparr>)"
          by simp
        then show ?thesis by blast
      next
        case (Cons f rest)
        show ?thesis
        proof (cases "counter s < parallel")
          case True
          with Iterating Cons have "run_step parallel Launch s =
              Some (s\<lparr>pending := rest, tasks := tasks s @ [Running],
                      counter := sem_acquire (counter s), acquires := acquires s + 1\<rparr>)"
            by (simp add: sem_may_acquire_def)
          then show ?thesis by blast
        next
          case False
          with h have "0 < counter s" by simp
          then show ?thesis by (rule task)
        qed
      qed
    next
      case Draining
      show ?thesis
      proof (cases "counter s = 0")
        case True
        with Draining have "run_step parallel All_finished s = Some (s\<lparr>phase := Closed\<rparr>)"
          by (simp add: sem_all_finished_def)
        then show ?thesis by blast
      next
        case False
        then have "0 < counter s" by simp
        then show ?thesis by (rule task)
      qed
    next
      case Closed
      with h show ?thesis by simp
    qed
  qed
  from a d r l c t f g show ?thesis
    by simp
qed

theorem slot_conservation_witness:
  "run [file_of ''h0'' (Some ''s1'') [], file_of ''h1'' None [], file_of ''h2'' (Some ''s1'') []] 2
     [Launch, Launch, Task_done 1 (Inl AssertionError), Done_callback 1, Launch,
      Task_done 0 (Inr None), Task_done 2 (Inr (Some [])), Done_callback 2, Done_callback 0,
      Source_exhausted, All_finished] =
     Some \<lparr>pending = [], tasks = [Released, Released, Released], counter = 0, acquires = 3,
           releases = [1, 2, 0], phase = Closed\<rparr> \<and>
   counter \<lparr>pending = [], tasks = [Released, Released, Released], counter = 0, acquires = 3,
           releases = [1, 2, 0], phase = Closed\<rparr> +
     length (releases \<lparr>pending = [], tasks = [Released, Released, Released], counter = 0,
           acquires = 3, releases = [1, 2, 0], phase = Closed\<rparr>) = 3 \<and>
   set (releases \<lparr>pending = [], tasks = [Released, Released, Released], counter = 0,
           acquires = 3, releases = [1, 2, 0], phase = Closed\<rparr>) = {0..<3}"
proof -
  let ?final = "\<lparr>pending = [], tasks = [Released, Released, Released], counter = 0,
           acquires = 3, releases = [1, 2, 0], phase = Closed\<rparr>"
  have h: "run [file_of ''h0'' (Some ''s1'') [], file_of ''h1'' None [],
       file_of ''h2'' (Some ''s1'') []] 2
     [Launch, Launch, Task_done 1 (Inl AssertionError), Done_callback 1, Launch,
      Task_done 0 (Inr None), Task_done 2 (Inr (Some [])), Done_callback 2, Done_callback 0,
      Source_exhausted, All_finished] = Some ?final"
    by (simp add: run_def run_start_def sem_may_acquire_def sem_acquire_def sem_release_def
        sem_all_finished_def)
  have cl: "phase ?final = Closed"
    by simp
  from slot_conservation [OF h] cl
  have "counter ?final + length (releases ?final) = acquires ?final \<and>
        set (releases ?final) = {0..<acquires ?final}"
    by blast
  with h show ?thesis by simp
qed

text \<open>
  Claim C6. At every point of every run with parallelism \<open>P\<close>, at most \<open>P\<close> upload units are
  active: the active units are among the tasks holding a slot, and the counter of held slots
  never exceeds \<open>P\<close>. This holds after every prefix of the schedule. The loop launches a unit
  only if \<^verbatim>\<open>acquire()\<close> admits it: with \<open>P\<close> units active no launch is possible.
\<close>

theorem bounded_concurrency:
  assumes "run files parallel schedule = Some s"
  shows "active_units s \<le> parallel \<and>
         active_units s \<le> counter s \<and>
         counter s \<le> parallel \<and>
         (\<forall>n\<le>length schedule. \<exists>t. run files parallel (take n schedule) = Some t \<and>
            active_units t \<le> parallel) \<and>
         (parallel \<le> active_units s \<longrightarrow> run_step parallel Launch s = None) \<and>
         (\<forall>s'. run_step parallel Launch s = Some s' \<longrightarrow>
            counter s < parallel \<and> active_units s' = active_units s + 1)"
proof -
  have bound: "active_units t \<le> counter t \<and> counter t \<le> parallel"
    if "run files parallel evs = Some t" for evs t
  proof -
    from run_inv_run [OF that] have "unreleased (tasks t) = counter t" "counter t \<le> parallel"
      by (simp_all add: run_inv_def)
    with active_le_unreleased [of "tasks t"] show ?thesis
      by (simp add: active_units_def)
  qed
  from bound [OF assms] have a: "active_units s \<le> counter s" and b: "counter s \<le> parallel"
    by simp_all
  have pre: "\<forall>n\<le>length schedule. \<exists>t. run files parallel (take n schedule) = Some t \<and>
            active_units t \<le> parallel"
  proof (intro allI impI)
    fix n
    from assms run_events_take [of parallel schedule "run_start files" s n]
    obtain t where t: "run files parallel (take n schedule) = Some t"
      by (auto simp: run_def)
    from bound [OF t] have "active_units t \<le> parallel"
      by simp
    with t show "\<exists>t. run files parallel (take n schedule) = Some t \<and> active_units t \<le> parallel"
      by blast
  qed
  have full: "parallel \<le> active_units s \<longrightarrow> run_step parallel Launch s = None"
    using a by (auto simp: sem_may_acquire_def split: list.splits)
  have launch: "\<forall>s'. run_step parallel Launch s = Some s' \<longrightarrow>
            counter s < parallel \<and> active_units s' = active_units s + 1"
    by (auto simp: sem_may_acquire_def active_units_def split: list.splits if_splits)
  from a b pre full launch show ?thesis
    by simp
qed

theorem bounded_concurrency_witness:
  "run (map (\<lambda>h. file_of h (Some ''s1'') []) [''h0'', ''h1'', ''h2'', ''h3'', ''h4'']) 2
     [Launch, Launch, Task_done 0 (Inr None), Done_callback 0, Launch,
      Task_done 2 (Inr (Some [])), Task_done 1 (Inr None), Done_callback 1, Launch,
      Done_callback 2, Launch, Source_exhausted, Task_done 4 (Inr None),
      Task_done 3 (Inl ValidationError), Done_callback 3, Done_callback 4, All_finished] =
     Some \<lparr>pending = [], tasks = [Released, Released, Released, Released, Released],
           counter = 0, acquires = 5, releases = [0, 1, 2, 3, 4], phase = Closed\<rparr> \<and>
   run (map (\<lambda>h. file_of h (Some ''s1'') []) [''h0'', ''h1'', ''h2'', ''h3'', ''h4'']) 2
     [Launch, Launch] =
     Some \<lparr>pending = map (\<lambda>h. file_of h (Some ''s1'') []) [''h2'', ''h3'', ''h4''],
           tasks = [Running, Running], counter = 2, acquires = 2, releases = [],
           phase = Iterating\<rparr> \<and>
   active_units \<lparr>pending = map (\<lambda>h. file_of h (Some ''s1'') []) [''h2'', ''h3'', ''h4''],
           tasks = [Running, Running], counter = 2, acquires = 2, releases = [],
           phase = Iterating\<rparr> = 2 \<and>
   run_step 2 Launch \<lparr>pending = map (\<lambda>h. file_of h (Some ''s1'') []) [''h2'', ''h3'', ''h4''],
           tasks = [Running, Running], counter = 2, acquires = 2, releases = [],
           phase = Iterating\<rparr> = None \<and>
   list_all (\<lambda>n. case run (map (\<lambda>h. file_of h (Some ''s1'') [])
                         [''h0'', ''h1'', ''h2'', ''h3'', ''h4'']) 2
       (take n [Launch, Launch, Task_done 0 (Inr None), Done_callback 0, Launch,
      Task_done 2 (Inr (Some [])), Task_done 1 (Inr None), Done_callback 1, Launch,
      Done_callback 2, Launch, Source_exhausted, Task_done 4 (Inr None),
      Task_done 3 (Inl ValidationError), Done_callback 3, Done_callback 4, All_finished]) of
         None \<Rightarrow> False | Some t \<Rightarrow> active_units t \<le> 2) [0..<18]"
proof -
  let ?files = "map (\<lambda>h. file_of h (Some ''s1'') []) [''h0'', ''h1'', ''h2'', ''h3'', ''h4'']"
  let ?sched = "[Launch, Launch, Task_done 0 (Inr None), Done_callback 0, Launch,
      Task_done 2 (Inr (Some [])), Task_done 1 (Inr None), Done_callback 1, Launch,
      Done_callback 2, Launch, Source_exhausted, Task_done 4 (Inr None),
      Task_done 3 (Inl ValidationError), Done_callback 3, Done_callback 4, All_finished]"
  let ?final = "\<lparr>pending = [], tasks = [Released, Released, Released, Released, Released],
           counter = 0, acquires = 5, releases = [0, 1, 2, 3, 4], phase = Closed\<rparr>"
  let ?two = "\<lparr>pending = map (\<lambda>h. file_of h (Some ''s1'') []) [''h2'', ''h3'', ''h4''],
           tasks = [Running, Running], counter = 2, acquires = 2, releases = [],
           phase = Iterating\<rparr>"
  have h: "run ?files 2 ?sched = Some ?final"
    by (simp add: run_def run_start_def sem_may_acquire_def sem_acquire_def sem_release_def
        sem_all_finished_def)
  have k: "run ?files 2 [Launch, Launch] = Some ?two"
    by (simp add: run_def run_start_def sem_may_acquire_def sem_acquire_def)
  have u: "active_units ?two = 2"
    by (simp add: active_units_def)
  from bounded_concurrency [OF k] u have n: "run_step 2 Launch ?two = None"
    by simp
  from bounded_concurrency [OF h]
  have "\<forall>n\<le>length ?sched. \<exists>t. run ?files 2 (take n ?sched) = Some t \<and> active_units t \<le> 2"
    by blast
  then have p: "list_all (\<lambda>n. case run ?files 2 (take n ?sched) of
         None \<Rightarrow> False | Some t \<Rightarrow> active_units t \<le> 2) [0..<18]"
    unfolding list_all_iff
  proof (intro ballI)
    fix n
    assume a: "\<forall>n\<le>length ?sched. \<exists>t. run ?files 2 (take n ?sched) = Some t \<and> active_units t \<le> 2"
      and "n \<in> set [0..<18]"
    then have "n \<le> length ?sched"
      by simp
    with a obtain t where "run ?files 2 (take n ?sched) = Some t" "active_units t \<le> 2"
      by blast
    then show "case run ?files 2 (take n ?sched) of None \<Rightarrow> False | Some t \<Rightarrow> active_units t \<le> 2"
      by simp
  qed
  from h k u n p show ?thesis by blast
qed

end
